theory Spec2Isabelle
  imports Main "HOL-Library.Sublist"
begin

section \<open>Python values used by the agent\<close>

text \<open>
  A Python \<open>str\<close> is modelled as a \<open>string\<close>; one \<open>char\<close> stands for one character of
  the Python string, so \<open>length\<close> is Python's \<open>len\<close>. The model covers the texts whose
  characters lie in the first 256 code points.
\<close>

definition tab :: char where
  "tab = CHR 0x09"

text \<open>\<open>str.lower()\<close> on the first 256 code points: A-Z and the accented capitals
  (0xC0-0xDE without the multiplication sign 0xD7) move up by 32.\<close>

definition lower_char :: "char \<Rightarrow> char" where
  "lower_char c =
     (let n = (of_char c :: nat)
      in if (65 \<le> n \<and> n \<le> 90) \<or> (192 \<le> n \<and> n \<le> 222 \<and> n \<noteq> 215)
         then char_of (n + 32) else c)"

definition lower :: "string \<Rightarrow> string" where
  "lower s = map lower_char s"

text \<open>The operator \<open>sub in s\<close> on strings: \<open>sub\<close> occurs in \<open>s\<close> as a contiguous block.\<close>

fun py_in :: "string \<Rightarrow> string \<Rightarrow> bool" where
  "py_in sub [] = (sub = [])"
| "py_in sub (c # cs) = (prefix sub (c # cs) \<or> py_in sub cs)"

text \<open>\<open>sep.join(parts)\<close>.\<close>

fun join :: "string \<Rightarrow> string list \<Rightarrow> string" where
  "join sep [] = []"
| "join sep [x] = x"
| "join sep (x # y # ys) = x @ sep @ join sep (y # ys)"

text \<open>Iterating over a \<open>str\<close> yields its characters as strings of length one.\<close>

definition chars_of :: "string \<Rightarrow> string list" where
  "chars_of s = map (\<lambda>c. [c]) s"

text \<open>\<open>str(n)\<close> for an integer, as an f-string renders it.\<close>

definition digit_char :: "nat \<Rightarrow> char" where
  "digit_char d = ''0123456789'' ! (d mod 10)"

fun str_nat :: "nat \<Rightarrow> string" where
  "str_nat n = (if n < 10 then [digit_char n] else str_nat (n div 10) @ [digit_char n])"

declare str_nat.simps [simp del]

definition str_int :: "int \<Rightarrow> string" where
  "str_int i = (if i < 0 then ''-'' @ str_nat (nat (- i)) else str_nat (nat i))"

text \<open>Exceptions: \<open>IndexError\<close> of list indexing, \<open>OSError\<close> of a file that cannot be
  opened, and the errors of the page-automation layer (a failed in-page script, a stale
  element, ...); the last two carry their message.\<close>

datatype exn = IndexError | OSError string | DriverError string

fun str_exn :: "exn \<Rightarrow> string" where
  "str_exn IndexError = ''list index out of range''"
| "str_exn (OSError m) = m"
| "str_exn (DriverError m) = m"

datatype 'a outcome = Returned 'a | Raised exn

text \<open>The subscript \<open>xs[i]\<close> of a list: positions \<open>0 .. len - 1\<close> are read directly,
  \<open>-len .. -1\<close> are read from the end, and anything else raises \<open>IndexError\<close>.\<close>

definition py_index :: "'a list \<Rightarrow> int \<Rightarrow> 'a outcome" where
  "py_index xs i =
     (if 0 \<le> i \<and> i < int (length xs) then Returned (xs ! nat i)
      else if - int (length xs) \<le> i \<and> i < 0 then Returned (xs ! nat (int (length xs) + i))
      else Raised IndexError)"

datatype pyval = PyInt int | PyStr string

type_synonym pydict = "(string \<times> pyval) list"

section \<open>The page and its elements\<close>

text \<open>A Selenium \<open>WebElement\<close>: an opaque handle with the tag name and the two attributes
  the annotator reads (\<open>get_attribute\<close> gives \<open>None\<close> for a missing attribute). When the
  node behind the handle is gone (\<open>stale\<close>), reading \<open>tag_name\<close> or an attribute raises.\<close>

record web_element =
  handle :: nat
  tag_name :: string
  attr_type :: "string option"
  attr_aria_label :: "string option"
  stale :: bool

definition stale_reference :: exn where
  "stale_reference = DriverError ''stale element reference''"

text \<open>One entry of \<open>items_raw\<close>: the keys \<open>'text'\<close> and \<open>'element'\<close>.\<close>

record raw_item =
  item_text :: string
  item_element :: web_element

section \<open>sully\_utils.py: the loop of get\_web\_element\_rect\<close>

definition input_attr_types :: "string list" where
  "input_attr_types = [''text'', ''search'', ''password'', ''email'', ''tel'']"

text \<open>Membership \<open>ele_type in [...]\<close> for an attribute that may be \<open>None\<close>.\<close>

definition opt_in :: "string option \<Rightarrow> string list \<Rightarrow> bool" where
  "opt_in a xs = (case a of None \<Rightarrow> False | Some v \<Rightarrow> v \<in> set xs)"

text \<open>Truthiness of an optional string: \<open>None\<close> and the empty string are false.\<close>

definition truthy :: "string option \<Rightarrow> bool" where
  "truthy a = (case a of None \<Rightarrow> False | Some v \<Rightarrow> v \<noteq> [])"

text \<open>The four f-strings of the loop body.\<close>

definition line_tag :: "nat \<Rightarrow> string \<Rightarrow> string \<Rightarrow> string" where
  \<open>line_tag web_ele_id ele_tag_name label =
     ''['' @ str_nat web_ele_id @ '']: <'' @ ele_tag_name @ ''> "'' @ label @ ''";''\<close>

definition line_tag2 :: "nat \<Rightarrow> string \<Rightarrow> string \<Rightarrow> string \<Rightarrow> string" where
  \<open>line_tag2 web_ele_id ele_tag_name label aria =
     ''['' @ str_nat web_ele_id @ '']: <'' @ ele_tag_name @ ''> "'' @ label @ ''", "'' @ aria @ ''";''\<close>

definition line_plain :: "nat \<Rightarrow> string \<Rightarrow> string" where
  \<open>line_plain web_ele_id label = ''['' @ str_nat web_ele_id @ '']: "'' @ label @ ''";''\<close>

definition line_plain2 :: "nat \<Rightarrow> string \<Rightarrow> string \<Rightarrow> string" where
  \<open>line_plain2 web_ele_id label aria =
     ''['' @ str_nat web_ele_id @ '']: "'' @ label @ ''", "'' @ aria @ ''";''\<close>

text \<open>One iteration of the loop: the line appended for element \<open>web_ele_id\<close>, or \<open>None\<close>
  when the iteration appends nothing.\<close>

definition format_line :: "nat \<Rightarrow> raw_item \<Rightarrow> string option" where
  "format_line web_ele_id item =
     (let label_text = item_text item;
          ele_tag_name = tag_name (item_element item);
          ele_type = attr_type (item_element item);
          ele_aria_label = attr_aria_label (item_element item)
      in if label_text = [] then
           (if (lower ele_tag_name = ''input'' \<and> opt_in ele_type input_attr_types)
               \<or> lower ele_tag_name = ''textarea''
               \<or> (lower ele_tag_name = ''button'' \<and> opt_in ele_type [''submit'', ''button''])
            then (if truthy ele_aria_label
                  then Some (line_tag web_ele_id ele_tag_name (the ele_aria_label))
                  else Some (line_tag web_ele_id ele_tag_name label_text))
            else None)
         else if length label_text < 200 then
           (if \<not> (py_in ''<img'' label_text \<and> py_in ''src='' label_text) then
              (if ele_tag_name \<in> set [''button'', ''input'', ''textarea''] then
                 (if truthy ele_aria_label \<and> ele_aria_label \<noteq> Some label_text
                  then Some (line_tag2 web_ele_id ele_tag_name label_text (the ele_aria_label))
                  else Some (line_tag web_ele_id ele_tag_name label_text))
               else
                 (if truthy ele_aria_label \<and> ele_aria_label \<noteq> Some label_text
                  then Some (line_plain2 web_ele_id label_text (the ele_aria_label))
                  else Some (line_plain web_ele_id label_text)))
            else None)
         else None)"

text \<open>The body of \<open>for web_ele_id in range(len(items_raw))\<close>, acting on the list
  \<open>format_ele_text\<close>. The iteration first reads \<open>tag_name\<close> and the two attributes of the
  element, which raises for a stale element; then it appends at most one line.\<close>

definition loop_body :: "raw_item list \<Rightarrow> string list \<Rightarrow> nat \<Rightarrow> string list outcome" where
  "loop_body items_raw format_ele_text web_ele_id =
     (if stale (item_element (items_raw ! web_ele_id)) then Raised stale_reference
      else (case format_line web_ele_id (items_raw ! web_ele_id) of
              None \<Rightarrow> Returned format_ele_text
            | Some line \<Rightarrow> Returned (format_ele_text @ [line])))"

text \<open>The \<open>for\<close> loop over the indices: the first iteration that raises ends it.\<close>

fun for_loop ::
  "(string list \<Rightarrow> nat \<Rightarrow> string list outcome) \<Rightarrow> string list \<Rightarrow> nat list \<Rightarrow> string list outcome"
  where
  "for_loop body acc [] = Returned acc"
| "for_loop body acc (i # ids) =
     (case body acc i of Raised e \<Rightarrow> Raised e | Returned acc' \<Rightarrow> for_loop body acc' ids)"

definition format_loop :: "raw_item list \<Rightarrow> string list outcome" where
  "format_loop items_raw = for_loop (loop_body items_raw) [] [0..<length items_raw]"

text \<open>The indices whose iteration appends a line.\<close>

definition included_ids :: "raw_item list \<Rightarrow> nat list" where
  "included_ids items_raw =
     filter (\<lambda>i. format_line i (items_raw ! i) \<noteq> None) [0..<length items_raw]"

section \<open>The live page\<close>

text \<open>The children of \<open>document.body\<close>: nodes of the page's own content, and marker
  nodes drawn by the annotation script.\<close>

datatype node = Content nat | Marker nat

fun is_marker :: "node \<Rightarrow> bool" where
  "is_marker (Marker k) = True"
| "is_marker (Content k) = False"

text \<open>The page as the browser holds it: the child list of the body, the interactive
  elements a discovery walk finds (in DOM order, with their rendered text), the
  counter from which new nodes are numbered, and whether scripts can be executed
  against it (it is loaded and connected).\<close>

record page =
  body :: "node list"
  interactive :: "raw_item list"
  next_node :: nat
  ready :: bool

definition markers_on_page :: "page \<Rightarrow> node list" where
  "markers_on_page pg = filter is_marker (body pg)"

text \<open>
  Modelled from the spec: the in-page annotation script \<open>label_script.txt\<close>, which
  \<open>get_web_element_rect\<close> reads and executes, is not among the sources. Following the
  spec (4.1, steps 1 to 3, and section 6), it discovers the interactive elements in DOM
  traversal order, overlays one new marker per discovered element, and returns the
  markers together with one entry (text and element handle) per discovered element.
  The argument is the colour function substituted for \<open>COLOR_FUNCTION\<close>; it affects
  rendering only. When the script cannot be executed against the page (4.1, Failure;
  section 7, \<open>PageNotReadyError\<close>) the execution raises and the page is left as it was.
\<close>

definition label_script ::
  "string \<Rightarrow> page \<Rightarrow> (node list \<times> raw_item list) outcome \<times> page" where
  "label_script color_function pg =
     (if \<not> ready pg then (Raised (DriverError ''page not ready''), pg)
      else (let items = interactive pg;
                labels = map Marker [next_node pg ..< next_node pg + length items]
            in (Returned (labels, items),
                pg\<lparr>body := body pg @ labels, next_node := next_node pg + length items\<rparr>)))"

text \<open>\<open>document.body.removeChild(child)\<close>: the DOM throws \<open>NotFoundError\<close> when the
  node is not a child of the body; the driver reports a thrown script error as an
  exception of \<open>execute_script\<close>.\<close>

definition not_a_child :: string where
  "not_a_child = ''The node to be removed is not a child of this node.''"

definition removeChild :: "node \<Rightarrow> node list \<Rightarrow> node list outcome" where
  "removeChild child b =
     (if child \<in> set b then Returned (remove1 child b) else Raised (DriverError not_a_child))"

text \<open>\<open>js_del_script\<close>: \<open>for (let i = 0; i < arguments[0].length; i++)
  document.body.removeChild(arguments[0][i])\<close>. The result is the outcome of the script
  and the body it leaves behind.\<close>

fun js_del_script :: "node list \<Rightarrow> node list \<Rightarrow> unit outcome \<times> node list" where
  "js_del_script [] b = (Returned (), b)"
| "js_del_script (r # rs) b =
     (case removeChild r b of
        Raised e \<Rightarrow> (Raised e, b)
      | Returned b' \<Rightarrow> js_del_script rs b')"

section \<open>sully\_utils.py: WebsiteInteractionAgent\<close>

text \<open>The fields of the agent that the annotator touches. \<open>rects\<close> is \<open>None\<close> while the
  attribute does not exist (\<open>hasattr(self, 'rects')\<close> is false). The two \<open>st_\<close> fields are
  the keys \<open>web_elements\<close> and \<open>formatted_ele_text\<close> of the session state. A screenshot is
  abstracted to the list of body children it shows. \<open>script_readable\<close> tells whether
  \<open>open('label_script.txt', 'r')\<close> succeeds in the working directory.\<close>

record agent =
  browser :: page
  script_readable :: bool
  rects :: "node list option"
  image_part :: "node list option"
  st_web_elements :: "web_element list option"
  st_formatted_ele_text :: "string option"

text \<open>\<open>get_web_element_rect\<close>: opening the script file, executing the script and the
  loop can each raise; \<open>self.rects\<close> is assigned only after the loop, so a pass that
  raises leaves the marker list as it was, and the page as the script left it.\<close>

definition get_web_element_rect ::
  "bool \<Rightarrow> agent \<Rightarrow> (node list \<times> web_element list \<times> string) outcome \<times> agent" where
  "get_web_element_rect fix_color self =
     (let selected_function = (if fix_color then ''getFixedColor'' else ''getRandomColor'')
      in if \<not> script_readable self then (Raised (OSError ''label_script.txt''), self)
         else (case label_script selected_function (browser self) of
                 (Raised e, pg) \<Rightarrow> (Raised e, self\<lparr>browser := pg\<rparr>)
               | (Returned (rs, items_raw), pg) \<Rightarrow>
                   (case format_loop items_raw of
                      Raised e \<Rightarrow> (Raised e, self\<lparr>browser := pg\<rparr>)
                    | Returned format_ele_text \<Rightarrow>
                        (Returned (rs, map item_element items_raw, join [tab] format_ele_text),
                         self\<lparr>browser := pg, rects := Some rs\<rparr>))))"

definition del_web_element_rect :: "agent \<Rightarrow> unit outcome \<times> agent" where
  "del_web_element_rect self =
     (case rects self of
        None \<Rightarrow> (Returned (), self)
      | Some rs \<Rightarrow>
          (case js_del_script rs (body (browser self)) of
             (Raised e, b) \<Rightarrow> (Raised e, self\<lparr>browser := (browser self)\<lparr>body := b\<rparr>\<rparr>)
           | (Returned u, b) \<Rightarrow>
               (Returned (), self\<lparr>browser := (browser self)\<lparr>body := b\<rparr>, rects := None\<rparr>)))"

definition save_screenshot :: "agent \<Rightarrow> node list" where
  "save_screenshot self = body (browser self)"

definition get_current_webpage_state :: "agent \<Rightarrow> string outcome \<times> agent" where
  "get_current_webpage_state self =
     (case get_web_element_rect True self of
        (Raised e, s1) \<Rightarrow> (Raised e, s1)
      | (Returned (rs, element, element_text), s1) \<Rightarrow>
          (let image_bytes = save_screenshot s1;
               s2 = s1\<lparr>image_part := Some image_bytes\<rparr>;
               s3 = s2\<lparr>st_web_elements := Some element,
                       st_formatted_ele_text := Some element_text\<rparr>
           in case del_web_element_rect s3 of
                (Raised e, s4) \<Rightarrow> (Raised e, s4)
              | (Returned u, s4) \<Rightarrow> (Returned (join [tab] (chars_of element_text)), s4)))"

text \<open>Sequences of calls on the annotator. The second component records the markers
  returned by the most recent annotation pass (empty before the first one). An
  exception ends the sequence.\<close>

datatype call = Annotate bool | Clear

fun do_call :: "call \<Rightarrow> agent \<times> node list \<Rightarrow> (agent \<times> node list) outcome" where
  "do_call (Annotate fix_color) (s, recent) =
     (case get_web_element_rect fix_color s of
        (Raised e, s') \<Rightarrow> Raised e
      | (Returned (rs, hs, txt), s') \<Rightarrow> Returned (s', rs))"
| "do_call Clear (s, recent) =
     (case del_web_element_rect s of
        (Raised e, s') \<Rightarrow> Raised e
      | (Returned u, s') \<Rightarrow> Returned (s', recent))"

fun run :: "call list \<Rightarrow> agent \<times> node list \<Rightarrow> (agent \<times> node list) outcome" where
  "run [] st = Returned st"
| "run (c # cs) st =
     (case do_call c st of Raised e \<Rightarrow> Raised e | Returned st' \<Rightarrow> run cs st')"

text \<open>The calling pattern of the decision loop: a pass is cleared before the next one
  starts, so no two annotation calls follow each other directly.\<close>

fun no_stacked :: "call list \<Rightarrow> bool" where
  "no_stacked (Annotate c # Annotate c' # cs) = False"
| "no_stacked (c # cs) = no_stacked cs"
| "no_stacked [] = True"

text \<open>A freshly created agent on a freshly loaded page: no marker list, no marker.\<close>

definition clean :: "agent \<Rightarrow> bool" where
  "clean s = (rects s = None \<and> markers_on_page (browser s) = [])"

text \<open>The conditions under which nothing in an annotation pass raises: the script file
  can be opened, the page executes scripts, and no discovered element is stale.\<close>

definition annotatable :: "agent \<Rightarrow> bool" where
  "annotatable s =
     (script_readable s \<and> ready (browser s) \<and>
      list_all (\<lambda>item. \<not> stale (item_element item)) (interactive (browser s)))"

text \<open>\<open>text.split(sep)\<close> with a one-character separator: how a reader of the formatted
  text gets its entries back.\<close>

fun split_on :: "char \<Rightarrow> string \<Rightarrow> string list" where
  "split_on c [] = [[]]"
| "split_on c (x # xs) =
     (if x = c then [] # split_on c xs
      else (case split_on c xs of [] \<Rightarrow> [[x]] | y # ys \<Rightarrow> (x # y) # ys))"

section \<open>website\_interaction\_tools.py: tool\_click\_web\_element\<close>

text \<open>The two keys of \<open>tool_context.state\<close> that the tool reads; \<open>None\<close> is what \<open>.get\<close>
  gives for a missing key. A driver object is always truthy.\<close>

record 'b tool_context =
  webdriver :: "'b option"
  web_elements :: "web_element list option"

text \<open>\<open>element.click()\<close> belongs to the page-automation layer: it is a parameter, which
  maps the element and the state of the world to the exception raised, if any, and the
  new state of the world. \<open>time.sleep\<close> changes nothing.\<close>

type_synonym 'w click = "web_element \<Rightarrow> 'w \<Rightarrow> exn option \<times> 'w"

definition out_of_range :: "int \<Rightarrow> pydict" where
  "out_of_range web_element_num =
     [(''error'', PyStr (''Web element number '' @ str_int web_element_num @ '' is out of range.''))]"

definition clicked :: "int \<Rightarrow> pydict" where
  "clicked web_element_num =
     [(''status'', PyInt 200),
      (''message'', PyStr (''Clicked on web element number '' @ str_int web_element_num @ ''.''))]"

text \<open>The body of the \<open>try\<close> block.\<close>

definition click_try :: "'w click \<Rightarrow> int \<Rightarrow> web_element list \<Rightarrow> 'w \<Rightarrow> pydict outcome \<times> 'w" where
  "click_try click web_element_num els w =
     (case py_index els web_element_num of
        Raised e \<Rightarrow> (Raised e, w)
      | Returned el \<Rightarrow>
          (case click el w of
             (Some e, w') \<Rightarrow> (Raised e, w')
           | (None, w') \<Rightarrow> (Returned (clicked web_element_num), w')))"

definition tool_click_web_element ::
  "'w click \<Rightarrow> int \<Rightarrow> 'b tool_context \<Rightarrow> 'w \<Rightarrow> pydict outcome \<times> 'w" where
  "tool_click_web_element click web_element_num tool_ctx w =
     (case webdriver tool_ctx of
        None \<Rightarrow> (Returned [(''error'', PyStr ''No browser instance found in tool context.'')], w)
      | Some driver \<Rightarrow>
          (let els = (case web_elements tool_ctx of None \<Rightarrow> [] | Some xs \<Rightarrow> xs)
           in if els = [] \<or> web_element_num \<ge> int (length els)
              then (Returned (out_of_range web_element_num), w)
              else (case click_try click web_element_num els w of
                      (Raised e, w') \<Rightarrow> (Returned [(''error'', PyStr (str_exn e))], w')
                    | (Returned d, w') \<Rightarrow> (Returned d, w'))))"

text \<open>A page-automation layer for concrete runs: clicking an element whose handle is in
  the list \<open>gone\<close> raises; any other click is recorded.\<close>

definition log_click :: "nat list \<Rightarrow> web_element list click" where
  "log_click gone el w =
     (if handle el \<in> set gone then (Some (DriverError ''stale element reference''), w)
      else (None, w @ [el]))"

text \<open>Concrete elements and pages for the examples.\<close>

definition send_button :: raw_item where
  "send_button = \<lparr>item_text = [], item_element =
     \<lparr>handle = 0, tag_name = ''button'', attr_type = Some ''submit'',
      attr_aria_label = Some ''Send'', stale = False\<rparr>\<rparr>"

definition submit_button :: raw_item where
  "submit_button = \<lparr>item_text = ''Submit'', item_element =
     \<lparr>handle = 1, tag_name = ''button'', attr_type = None,
      attr_aria_label = Some ''submit-form'', stale = False\<rparr>\<rparr>"

definition blank_aria_button :: raw_item where
  "blank_aria_button = \<lparr>item_text = ''Submit'', item_element =
     \<lparr>handle = 2, tag_name = ''button'', attr_type = None, attr_aria_label = Some [],
      stale = False\<rparr>\<rparr>"

definition contact_div :: raw_item where
  "contact_div = \<lparr>item_text = ''Hi'', item_element =
     \<lparr>handle = 3, tag_name = ''div'', attr_type = None, attr_aria_label = None,
      stale = False\<rparr>\<rparr>"

definition empty_div :: raw_item where
  "empty_div = \<lparr>item_text = [], item_element =
     \<lparr>handle = 4, tag_name = ''div'', attr_type = None, attr_aria_label = Some ''menu'',
      stale = False\<rparr>\<rparr>"

definition spoof_div :: raw_item where
  \<open>spoof_div = \<lparr>item_text = ''x";'' @ [tab] @ ''[7]: "y'', item_element =
     \<lparr>handle = 5, tag_name = ''div'', attr_type = None, attr_aria_label = None,
      stale = False\<rparr>\<rparr>\<close>

definition three_items :: "raw_item list" where
  "three_items = [contact_div, empty_div, send_button]"

definition page3 :: page where
  "page3 = \<lparr>body = [Content 0], interactive = three_items, next_node = 0, ready = True\<rparr>"

definition page3_marked :: page where
  "page3_marked = \<lparr>body = [Content 0, Marker 0, Marker 1, Marker 2],
                    interactive = three_items, next_node = 3, ready = True\<rparr>"

definition agent3 :: agent where
  "agent3 = \<lparr>browser = page3, script_readable = True, rects = None, image_part = None,
              st_web_elements = None, st_formatted_ele_text = None\<rparr>"

definition agent3_marked :: agent where
  "agent3_marked = \<lparr>browser = page3_marked, script_readable = True,
              rects = Some [Marker 0, Marker 1, Marker 2], image_part = None,
              st_web_elements = None, st_formatted_ele_text = None\<rparr>"

definition spoof_agent :: agent where
  "spoof_agent =
     \<lparr>browser = \<lparr>body = [Content 0], interactive = [spoof_div], next_node = 0, ready = True\<rparr>,
      script_readable = True, rects = None, image_part = None,
      st_web_elements = None, st_formatted_ele_text = None\<rparr>"

definition spoofed_agent :: agent where
  "spoofed_agent =
     \<lparr>browser = \<lparr>body = [Content 0, Marker 0], interactive = [spoof_div], next_node = 1,
                  ready = True\<rparr>,
      script_readable = True, rects = Some [Marker 0], image_part = None,
      st_web_elements = None, st_formatted_ele_text = None\<rparr>"

definition stuck_agent :: agent where
  "stuck_agent =
     \<lparr>browser = \<lparr>body = [Content 0, Marker 6], interactive = [], next_node = 7, ready = True\<rparr>,
      script_readable = True, rects = Some [Marker 5, Marker 6], image_part = None,
      st_web_elements = None, st_formatted_ele_text = None\<rparr>"

definition stale_div :: raw_item where
  "stale_div = \<lparr>item_text = ''Gone'', item_element =
     \<lparr>handle = 6, tag_name = ''div'', attr_type = None, attr_aria_label = None,
      stale = True\<rparr>\<rparr>"

definition stale_agent :: agent where
  "stale_agent =
     \<lparr>browser = \<lparr>body = [Content 0], interactive = [stale_div], next_node = 0, ready = True\<rparr>,
      script_readable = True, rects = None, image_part = None,
      st_web_elements = None, st_formatted_ele_text = None\<rparr>"

definition stale_left_agent :: agent where
  "stale_left_agent =
     \<lparr>browser = \<lparr>body = [Content 0, Marker 0], interactive = [stale_div], next_node = 1,
                  ready = True\<rparr>,
      script_readable = True, rects = None, image_part = None,
      st_web_elements = None, st_formatted_ele_text = None\<rparr>"

definition page0 :: page where
  "page0 = \<lparr>body = [Content 0], interactive = [contact_div], next_node = 0, ready = True\<rparr>"

definition page1 :: page where
  "page1 = \<lparr>body = [Content 0, Marker 0], interactive = [contact_div], next_node = 1, ready = True\<rparr>"

definition page2 :: page where
  "page2 = \<lparr>body = [Content 0, Marker 0, Marker 1], interactive = [contact_div],
             next_node = 2, ready = True\<rparr>"

definition agent0 :: agent where
  "agent0 = \<lparr>browser = page0, script_readable = True, rects = None, image_part = None,
              st_web_elements = None, st_formatted_ele_text = None\<rparr>"

definition agent1 :: agent where
  "agent1 = \<lparr>browser = page1, script_readable = True, rects = Some [Marker 0], image_part = None,
              st_web_elements = None, st_formatted_ele_text = None\<rparr>"

definition agent2 :: agent where
  "agent2 = \<lparr>browser = page2, script_readable = True, rects = Some [Marker 1], image_part = None,
              st_web_elements = None, st_formatted_ele_text = None\<rparr>"

definition tracked_agent :: agent where
  "tracked_agent =
     \<lparr>browser = \<lparr>body = [Content 0, Marker 0, Marker 1, Marker 2], interactive = [],
                  next_node = 3, ready = True\<rparr>,
      script_readable = True, rects = Some [Marker 0, Marker 1, Marker 2], image_part = None,
      st_web_elements = None, st_formatted_ele_text = None\<rparr>"

definition cleared_agent :: agent where
  "cleared_agent =
     \<lparr>browser = \<lparr>body = [Content 0], interactive = [], next_node = 3, ready = True\<rparr>,
      script_readable = True, rects = None, image_part = None,
      st_web_elements = None, st_formatted_ele_text = None\<rparr>"

definition two_elements :: "web_element list" where
  "two_elements = [item_element send_button, item_element submit_button]"

definition click_ctx :: "unit tool_context" where
  "click_ctx = \<lparr>webdriver = Some (), web_elements = Some two_elements\<rparr>"



text \<open>The state between calls, with the markers of the most recent pass: either no list
  is tracked and no marker is on the page, or the tracked list is that of the most recent
  pass and the markers on the page are exactly its entries.\<close>

definition tidy :: "agent \<times> node list \<Rightarrow> bool" where
  "tidy st =
     (case rects (fst st) of
        None \<Rightarrow> markers_on_page (browser (fst st)) = []
      | Some rs \<Rightarrow> rs = snd st \<and> markers_on_page (browser (fst st)) = rs)"

section \<open>The loop and the joined text\<close>

lemma py_in_sublist: "py_in sub s = sublist sub s"
  by (induction s) (auto simp: sublist_Cons_right)

lemma for_loop_body:
  "for_loop (loop_body items) acc xs =
     (if \<exists>i\<in>set xs. stale (item_element (items ! i)) then Raised stale_reference
      else Returned (acc @ map (\<lambda>i. the (format_line i (items ! i)))
                            (filter (\<lambda>i. format_line i (items ! i) \<noteq> None) xs)))"
  by (induction xs arbitrary: acc) (auto simp: loop_body_def split: option.splits)

lemma format_loop_eq:
  "format_loop items =
     (if \<exists>i<length items. stale (item_element (items ! i)) then Raised stale_reference
      else Returned (map (\<lambda>i. the (format_line i (items ! i))) (included_ids items)))"
  by (simp add: format_loop_def included_ids_def for_loop_body)

lemma format_loop_returned:
  assumes "format_loop items = Returned lines"
  shows "lines = map (\<lambda>i. the (format_line i (items ! i))) (included_ids items)"
    and "\<forall>i<length items. \<not> stale (item_element (items ! i))"
  using assms by (auto simp: format_loop_eq split: if_splits)

lemma format_loop_fresh:
  assumes "list_all (\<lambda>item. \<not> stale (item_element item)) items"
  shows "format_loop items =
     Returned (map (\<lambda>i. the (format_line i (items ! i))) (included_ids items))"
  using assms by (auto simp: format_loop_eq list_all_length)

lemma format_line_index:
  "format_line i item = Some l \<Longrightarrow> \<exists>rest. l = ''['' @ str_nat i @ '']: '' @ rest"
  by (simp add: format_line_def Let_def line_tag_def line_tag2_def line_plain_def line_plain2_def
           split: if_splits) auto

lemma lower_button: "lower ''button'' = ''button''"
  by code_simp

lemma str_nat_nonempty: "str_nat n \<noteq> []"
  by (subst str_nat.simps) simp

lemma digit_char_mem: "digit_char d \<in> set ''0123456789''"
  unfolding digit_char_def by (rule nth_mem) simp

lemma str_nat_digits: "set (str_nat n) \<subseteq> set ''0123456789''"
proof (induction n rule: str_nat.induct)
  case (1 n)
  show ?case
  proof (cases "n < 10")
    case True
    then have "str_nat n = [digit_char n]" by (subst str_nat.simps) simp
    then show ?thesis using digit_char_mem [of n] by simp
  next
    case False
    then have "str_nat n = str_nat (n div 10) @ [digit_char n]" by (subst str_nat.simps) simp
    then show ?thesis using 1 False digit_char_mem [of n] by simp
  qed
qed

lemma str_nat_no_bracket: "CHR '']'' \<notin> set (str_nat n)"
  using str_nat_digits [of n] by auto

lemma digit_char_inj:
  assumes "digit_char a = digit_char b" shows "a mod 10 = b mod 10"
proof -
  have d: "distinct ''0123456789''" by simp
  have "a mod 10 < length ''0123456789''" "b mod 10 < length ''0123456789''" by simp_all
  with assms d show ?thesis
    unfolding digit_char_def by (simp only: nth_eq_iff_index_eq)
qed

lemma str_nat_inj: "str_nat n = str_nat m \<Longrightarrow> n = m"
proof (induction n arbitrary: m rule: str_nat.induct)
  case (1 n)
  have en: "str_nat n = (if n < 10 then [digit_char n] else str_nat (n div 10) @ [digit_char n])"
    by (subst str_nat.simps) simp
  have em: "str_nat m = (if m < 10 then [digit_char m] else str_nat (m div 10) @ [digit_char m])"
    by (subst str_nat.simps) simp
  show ?case
  proof (cases "n < 10")
    case n: True
    show ?thesis
    proof (cases "m < 10")
      case True
      with n en em "1.prems" have "digit_char n = digit_char m" by simp
      from digit_char_inj [OF this] n True show ?thesis by simp
    next
      case False
      with n en em "1.prems" show ?thesis using str_nat_nonempty [of "m div 10"] by auto
    qed
  next
    case n: False
    show ?thesis
    proof (cases "m < 10")
      case True
      with n en em "1.prems" show ?thesis using str_nat_nonempty [of "n div 10"] by auto
    next
      case False
      with n en em "1.prems" have a: "str_nat (n div 10) = str_nat (m div 10)"
        and b: "digit_char n = digit_char m" by simp_all
      from "1.IH" [OF n a] have "n div 10 = m div 10" .
      moreover from digit_char_inj [OF b] have "n mod 10 = m mod 10" .
      ultimately show ?thesis by (metis div_mult_mod_eq)
    qed
  qed
qed

lemma index_prefix_inj:
  assumes "''['' @ str_nat i @ '']: '' @ r = ''['' @ str_nat k @ '']: '' @ r'"
  shows "i = k"
proof -
  let ?P = "\<lambda>c. c \<noteq> CHR '']''"
  from assms have e: "str_nat i @ CHR '']'' # ('': '' @ r) = str_nat k @ CHR '']'' # ('': '' @ r')"
    by simp
  have stop: "takeWhile ?P (str_nat j @ CHR '']'' # t) = str_nat j" for j t
  proof -
    have "\<forall>c\<in>set (str_nat j). ?P c" using str_nat_no_bracket [of j] by auto
    then show ?thesis by (simp add: takeWhile_append2)
  qed
  have "takeWhile ?P (str_nat i @ CHR '']'' # ('': '' @ r)) = str_nat i"
    by (rule stop)
  moreover have "takeWhile ?P (str_nat k @ CHR '']'' # ('': '' @ r')) = str_nat k"
    by (rule stop)
  ultimately have "str_nat i = str_nat k" using e by simp
  then show ?thesis by (rule str_nat_inj)
qed

lemma format_loop_line:
  assumes "format_loop items = Returned lines"
    and "l \<in> set lines" and "l = ''['' @ str_nat k @ '']: '' @ rest"
  shows "k < length items \<and> format_line k (items ! k) = Some l"
proof -
  have e: "lines = map (\<lambda>i. the (format_line i (items ! i))) (included_ids items)"
    by (rule format_loop_returned(1) [OF assms(1)])
  with assms(2) obtain i where i: "i \<in> set (included_ids items)"
    and l: "l = the (format_line i (items ! i))"
    by auto
  from i have b: "i < length items" and s: "format_line i (items ! i) \<noteq> None"
    by (simp_all add: included_ids_def)
  from s l have fl: "format_line i (items ! i) = Some l" by auto
  from format_line_index [OF fl] obtain r where "l = ''['' @ str_nat i @ '']: '' @ r" ..
  with assms(3) have "i = k" using index_prefix_inj by metis
  with b fl show ?thesis by simp
qed

lemma format_loop_has_line:
  assumes "format_loop items = Returned lines"
    and "i < length items" and "format_line i (items ! i) = Some l"
  shows "l \<in> set lines"
proof -
  from assms(2,3) have "i \<in> set (included_ids items)" by (simp add: included_ids_def)
  moreover have "lines = map (\<lambda>i. the (format_line i (items ! i))) (included_ids items)"
    by (rule format_loop_returned(1) [OF assms(1)])
  ultimately have "the (format_line i (items ! i)) \<in> set lines" by simp
  with assms(3) show ?thesis by simp
qed

text \<open>The element \<open>i\<close> has a line among the entries exactly when its iteration appends
  one.\<close>

lemma has_line_iff:
  assumes "format_loop items = Returned lines" and "i < length items"
  shows "(\<exists>l rest. l \<in> set lines \<and> l = ''['' @ str_nat i @ '']: '' @ rest) =
         (format_line i (items ! i) \<noteq> None)"
proof
  assume "\<exists>l rest. l \<in> set lines \<and> l = ''['' @ str_nat i @ '']: '' @ rest"
  then obtain l rest where "l \<in> set lines" "l = ''['' @ str_nat i @ '']: '' @ rest" by blast
  from format_loop_line [OF assms(1) this] show "format_line i (items ! i) \<noteq> None" by simp
next
  assume "format_line i (items ! i) \<noteq> None"
  then obtain l where l: "format_line i (items ! i) = Some l" by auto
  from format_loop_has_line [OF assms l] have "l \<in> set lines" .
  moreover from format_line_index [OF l] obtain rest
    where "l = ''['' @ str_nat i @ '']: '' @ rest" ..
  ultimately show "\<exists>l rest. l \<in> set lines \<and> l = ''['' @ str_nat i @ '']: '' @ rest" by blast
qed

lemma sublist_join: "l \<in> set ls \<Longrightarrow> sublist l (join sep ls)"
proof (induction sep ls rule: join.induct)
  case (1 sep)
  then show ?case by simp
next
  case (2 sep x)
  then show ?case by simp
next
  case (3 sep x y ys)
  show ?case
  proof (cases "l = x")
    case True
    then have "join sep (x # y # ys) = [] @ l @ (sep @ join sep (y # ys))" by simp
    then show ?thesis unfolding sublist_def by blast
  next
    case False
    with 3 have "sublist l (join sep (y # ys))" by simp
    then obtain ps ss where "join sep (y # ys) = ps @ l @ ss" by (auto simp: sublist_def)
    then have "join sep (x # y # ys) = (x @ sep @ ps) @ l @ ss" by simp
    then show ?thesis unfolding sublist_def by blast
  qed
qed

lemma split_on_plain: "c \<notin> set l \<Longrightarrow> split_on c l = [l]"
  by (induction l) auto

lemma split_on_append: "c \<notin> set l \<Longrightarrow> split_on c (l @ c # r) = l # split_on c r"
  by (induction l) auto

lemma split_on_join:
  "ls \<noteq> [] \<Longrightarrow> \<forall>l\<in>set ls. c \<notin> set l \<Longrightarrow> split_on c (join [c] ls) = ls"
proof (induction "[c]" ls rule: join.induct)
  case 1
  then show ?case by simp
next
  case (2 x)
  then show ?case by (simp add: split_on_plain)
next
  case (3 x y ys)
  then have "split_on c (join [c] (y # ys)) = y # ys" by simp
  moreover from 3 have "c \<notin> set x" by simp
  ultimately show ?case by (simp add: split_on_append)
qed

lemma label_script_returned:
  assumes "label_script color_function pg = (Returned (rs, items_raw), pg')"
  shows "ready pg" and "items_raw = interactive pg"
    and "rs = map Marker [next_node pg ..< next_node pg + length (interactive pg)]"
    and "pg' = pg\<lparr>body := body pg @ rs, next_node := next_node pg + length (interactive pg)\<rparr>"
  using assms by (auto simp: label_script_def Let_def split: if_splits)

lemma get_web_element_rect_returned:
  assumes "get_web_element_rect fix_color self = (Returned (ms, hs, txt), self')"
  shows "\<exists>lines. script_readable self \<and> ready (browser self) \<and>
           format_loop (interactive (browser self)) = Returned lines \<and>
           ms = map Marker [next_node (browser self) ..<
                  next_node (browser self) + length (interactive (browser self))] \<and>
           hs = map item_element (interactive (browser self)) \<and>
           txt = join [tab] lines \<and>
           self' = self\<lparr>browser := (browser self)\<lparr>body := body (browser self) @ ms,
                       next_node := next_node (browser self) + length (interactive (browser self))\<rparr>,
                     rects := Some ms\<rparr>"
  using assms
  by (auto simp: get_web_element_rect_def label_script_def Let_def
           split: if_splits outcome.splits prod.splits)

section \<open>The inclusion filter\<close>

lemma annotate_agent3:
  \<open>get_web_element_rect True agent3 =
     (Returned ([Marker 0, Marker 1, Marker 2], map item_element three_items,
                ''[0]: "Hi";'' @ [tab] @ ''[2]: <button> "Send";''), agent3_marked)\<close>
  by code_simp

lemma label_script_page3:
  "label_script ''getFixedColor'' (browser agent3) =
     (Returned ([Marker 0, Marker 1, Marker 2], three_items), page3_marked)"
  by code_simp

text \<open>
  C2. In a pass that returns, a discovered element whose text is empty has a line among
  the entries joined into \<open>formatted_text\<close> exactly when it is an input of type text,
  search, password, email or tel, or a textarea, or a button of type submit or button
  (the tag name compared after lowercasing, as the code does). Its line then is
  \<open>[i]: <tag> "label";\<close> with the aria-label as label when that is present and
  non-empty, and the empty string otherwise, and \<open>formatted_text\<close> contains it.
\<close>

theorem empty_text_inclusion:
  assumes "get_web_element_rect fix_color self =
             (Returned (markers, element_handles, formatted_text), self')"
    and "label_script color_function (browser self) = (Returned (rs, items_raw), pg)"
    and "i < length items_raw" and "item_text (items_raw ! i) = []"
  shows \<open>\<exists>lines. format_loop items_raw = Returned lines \<and>
           formatted_text = join [tab] lines \<and>
           ((\<exists>l rest. l \<in> set lines \<and> l = ''['' @ str_nat i @ '']: '' @ rest) =
              ((lower (tag_name (element_handles ! i)) = ''input'' \<and>
                  attr_type (element_handles ! i) \<in>
                    Some ` {''text'', ''search'', ''password'', ''email'', ''tel''})
               \<or> lower (tag_name (element_handles ! i)) = ''textarea''
               \<or> (lower (tag_name (element_handles ! i)) = ''button'' \<and>
                  attr_type (element_handles ! i) \<in> Some ` {''submit'', ''button''}))) \<and>
           ((\<exists>l rest. l \<in> set lines \<and> l = ''['' @ str_nat i @ '']: '' @ rest) \<longrightarrow>
              ''['' @ str_nat i @ '']: <'' @ tag_name (element_handles ! i) @ ''> "''
                @ (case attr_aria_label (element_handles ! i) of
                     None \<Rightarrow> [] | Some a \<Rightarrow> if a \<noteq> [] then a else [])
                @ ''";'' \<in> set lines \<and>
              sublist (''['' @ str_nat i @ '']: <'' @ tag_name (element_handles ! i) @ ''> "''
                @ (case attr_aria_label (element_handles ! i) of
                     None \<Rightarrow> [] | Some a \<Rightarrow> if a \<noteq> [] then a else [])
                @ ''";'') formatted_text)\<close>
proof -
  from label_script_returned(2) [OF assms(2)] have it: "items_raw = interactive (browser self)" .
  from get_web_element_rect_returned [OF assms(1)] it obtain lines
    where fl: "format_loop items_raw = Returned lines"
      and hs: "element_handles = map item_element items_raw"
      and tx: "formatted_text = join [tab] lines" by auto
  let ?e = "element_handles ! i"
  let ?cond = "(lower (tag_name ?e) = ''input'' \<and>
                  attr_type ?e \<in> Some ` {''text'', ''search'', ''password'', ''email'', ''tel''})
               \<or> lower (tag_name ?e) = ''textarea''
               \<or> (lower (tag_name ?e) = ''button'' \<and>
                  attr_type ?e \<in> Some ` {''submit'', ''button''})"
  let ?line = \<open>''['' @ str_nat i @ '']: <'' @ tag_name ?e @ ''> "''
                @ (case attr_aria_label ?e of
                     None \<Rightarrow> [] | Some a \<Rightarrow> if a \<noteq> [] then a else [])
                @ ''";''\<close>
  have e: "?e = item_element (items_raw ! i)" using hs assms(3) by simp
  have inc: "(format_line i (items_raw ! i) \<noteq> None) = ?cond"
    using assms(4) unfolding e
    by (auto simp: format_line_def Let_def opt_in_def input_attr_types_def split: option.splits)
  have ln: "format_line i (items_raw ! i) \<noteq> None \<Longrightarrow> format_line i (items_raw ! i) = Some ?line"
    using assms(4) unfolding e
    by (auto simp: format_line_def Let_def truthy_def line_tag_def split: option.splits if_splits)
  have h: "(\<exists>l rest. l \<in> set lines \<and> l = ''['' @ str_nat i @ '']: '' @ rest) =
           (format_line i (items_raw ! i) \<noteq> None)"
    by (rule has_line_iff [OF fl assms(3)])
  have a: "(\<exists>l rest. l \<in> set lines \<and> l = ''['' @ str_nat i @ '']: '' @ rest) = ?cond"
    using h inc by simp
  have b: "(\<exists>l rest. l \<in> set lines \<and> l = ''['' @ str_nat i @ '']: '' @ rest) \<longrightarrow>
             ?line \<in> set lines \<and> sublist ?line formatted_text"
  proof
    assume "\<exists>l rest. l \<in> set lines \<and> l = ''['' @ str_nat i @ '']: '' @ rest"
    with h have "format_line i (items_raw ! i) \<noteq> None" by simp
    from ln [OF this] have "format_line i (items_raw ! i) = Some ?line" .
    from format_loop_has_line [OF fl assms(3) this] have m: "?line \<in> set lines" .
    from sublist_join [OF m] tx have "sublist ?line formatted_text" by simp
    with m show "?line \<in> set lines \<and> sublist ?line formatted_text" ..
  qed
  from fl tx a b show ?thesis by (intro exI [of _ lines] conjI)
qed

theorem empty_text_inclusion_witness:
  \<open>get_web_element_rect True agent3 =
     (Returned ([Marker 0, Marker 1, Marker 2], map item_element three_items,
                ''[0]: "Hi";'' @ [tab] @ ''[2]: <button> "Send";''), agent3_marked) \<and>
   label_script ''getFixedColor'' (browser agent3) =
     (Returned ([Marker 0, Marker 1, Marker 2], three_items), page3_marked) \<and>
   2 < length three_items \<and> item_text (three_items ! 2) = [] \<and>
   sublist ''[2]: <button> "Send";'' (''[0]: "Hi";'' @ [tab] @ ''[2]: <button> "Send";'')\<close>
proof -
  have h3: "2 < length three_items" by (simp add: three_items_def)
  have h4: "item_text (three_items ! 2) = []" by (simp add: three_items_def send_button_def)
  have e2: "map item_element three_items ! 2 = item_element send_button"
    by (simp add: three_items_def)
  have n2: "str_nat 2 = ''2''" by code_simp
  from empty_text_inclusion [OF annotate_agent3 label_script_page3 h3 h4]
  obtain lines where
    a: \<open>(\<exists>l rest. l \<in> set lines \<and> l = ''['' @ str_nat 2 @ '']: '' @ rest) =
          ((lower (tag_name (map item_element three_items ! 2)) = ''input'' \<and>
              attr_type (map item_element three_items ! 2) \<in>
                Some ` {''text'', ''search'', ''password'', ''email'', ''tel''})
           \<or> lower (tag_name (map item_element three_items ! 2)) = ''textarea''
           \<or> (lower (tag_name (map item_element three_items ! 2)) = ''button'' \<and>
              attr_type (map item_element three_items ! 2) \<in> Some ` {''submit'', ''button''}))\<close>
    and b: \<open>(\<exists>l rest. l \<in> set lines \<and> l = ''['' @ str_nat 2 @ '']: '' @ rest) \<longrightarrow>
          ''['' @ str_nat 2 @ '']: <'' @ tag_name (map item_element three_items ! 2) @ ''> "''
            @ (case attr_aria_label (map item_element three_items ! 2) of
                 None \<Rightarrow> [] | Some a \<Rightarrow> if a \<noteq> [] then a else [])
            @ ''";'' \<in> set lines \<and>
          sublist (''['' @ str_nat 2 @ '']: <'' @ tag_name (map item_element three_items ! 2) @ ''> "''
            @ (case attr_aria_label (map item_element three_items ! 2) of
                 None \<Rightarrow> [] | Some a \<Rightarrow> if a \<noteq> [] then a else [])
            @ ''";'') (''[0]: "Hi";'' @ [tab] @ ''[2]: <button> "Send";'')\<close>
    by (elim exE conjE)
  have "lower (tag_name (map item_element three_items ! 2)) = ''button'' \<and>
        attr_type (map item_element three_items ! 2) \<in> Some ` {''submit'', ''button''}"
    by (simp add: e2 send_button_def lower_button)
  with a have "\<exists>l rest. l \<in> set lines \<and> l = ''['' @ str_nat 2 @ '']: '' @ rest" by simp
  from b [THEN mp, OF this, THEN conjunct2]
  have s: \<open>sublist ''[2]: <button> "Send";'' (''[0]: "Hi";'' @ [tab] @ ''[2]: <button> "Send";'')\<close>
    by (simp add: e2 send_button_def n2)
  from annotate_agent3 label_script_page3 h3 h4 s show ?thesis by (intro conjI)
qed

text \<open>
  C3. In a pass that returns, a discovered element whose text is non-empty has a line
  among the entries joined into \<open>formatted_text\<close> exactly when the text is shorter than
  200 characters and does not contain both \<open><img\<close> and \<open>src=\<close>; with a text of 200
  characters or more, or one containing both substrings, it has none. A line it has is
  contained in \<open>formatted_text\<close>.
\<close>

theorem nonempty_text_inclusion:
  assumes "get_web_element_rect fix_color self =
             (Returned (markers, element_handles, formatted_text), self')"
    and "label_script color_function (browser self) = (Returned (rs, items_raw), pg)"
    and "i < length items_raw" and "item_text (items_raw ! i) \<noteq> []"
  shows "\<exists>lines. format_loop items_raw = Returned lines \<and>
           formatted_text = join [tab] lines \<and>
           ((\<exists>l rest. l \<in> set lines \<and> l = ''['' @ str_nat i @ '']: '' @ rest) =
              (length (item_text (items_raw ! i)) < 200 \<and>
               \<not> (sublist ''<img'' (item_text (items_raw ! i)) \<and>
                  sublist ''src='' (item_text (items_raw ! i))))) \<and>
           (\<forall>l rest. l \<in> set lines \<longrightarrow> l = ''['' @ str_nat i @ '']: '' @ rest \<longrightarrow>
              sublist l formatted_text)"
proof -
  from label_script_returned(2) [OF assms(2)] have it: "items_raw = interactive (browser self)" .
  from get_web_element_rect_returned [OF assms(1)] it obtain lines
    where fl: "format_loop items_raw = Returned lines"
      and tx: "formatted_text = join [tab] lines" by auto
  have inc: "(format_line i (items_raw ! i) \<noteq> None) =
      (length (item_text (items_raw ! i)) < 200 \<and>
       \<not> (sublist ''<img'' (item_text (items_raw ! i)) \<and>
          sublist ''src='' (item_text (items_raw ! i))))"
    using assms(4) by (simp add: format_line_def Let_def py_in_sublist)
  have a: "(\<exists>l rest. l \<in> set lines \<and> l = ''['' @ str_nat i @ '']: '' @ rest) =
      (length (item_text (items_raw ! i)) < 200 \<and>
       \<not> (sublist ''<img'' (item_text (items_raw ! i)) \<and>
          sublist ''src='' (item_text (items_raw ! i))))"
    unfolding has_line_iff [OF fl assms(3)] by (rule inc)
  have b: "\<forall>l rest. l \<in> set lines \<longrightarrow> l = ''['' @ str_nat i @ '']: '' @ rest \<longrightarrow>
      sublist l formatted_text"
    unfolding tx by (intro allI impI) (rule sublist_join)
  from fl tx a b show ?thesis by (intro exI [of _ lines] conjI)
qed

theorem nonempty_text_inclusion_witness:
  \<open>get_web_element_rect True agent3 =
     (Returned ([Marker 0, Marker 1, Marker 2], map item_element three_items,
                ''[0]: "Hi";'' @ [tab] @ ''[2]: <button> "Send";''), agent3_marked) \<and>
   label_script ''getFixedColor'' (browser agent3) =
     (Returned ([Marker 0, Marker 1, Marker 2], three_items), page3_marked) \<and>
   0 < length three_items \<and> item_text (three_items ! 0) \<noteq> [] \<and>
   (\<exists>lines. format_loop three_items = Returned lines \<and>
      (\<exists>l rest. l \<in> set lines \<and> l = ''['' @ str_nat 0 @ '']: '' @ rest))\<close>
proof -
  have h3: "0 < length three_items" by (simp add: three_items_def)
  have h4: "item_text (three_items ! 0) \<noteq> []" by (simp add: three_items_def contact_div_def)
  have c: "length (item_text (three_items ! 0)) < 200 \<and>
       \<not> (sublist ''<img'' (item_text (three_items ! 0)) \<and>
          sublist ''src='' (item_text (three_items ! 0)))"
    by code_simp
  from nonempty_text_inclusion [OF annotate_agent3 label_script_page3 h3 h4]
  obtain lines where fl: "format_loop three_items = Returned lines"
    and a: "(\<exists>l rest. l \<in> set lines \<and> l = ''['' @ str_nat 0 @ '']: '' @ rest) =
      (length (item_text (three_items ! 0)) < 200 \<and>
       \<not> (sublist ''<img'' (item_text (three_items ! 0)) \<and>
          sublist ''src='' (item_text (three_items ! 0))))"
    by (elim exE conjE)
  from a c have "\<exists>l rest. l \<in> set lines \<and> l = ''['' @ str_nat 0 @ '']: '' @ rest"
    by (rule iffD2)
  with fl have r: "\<exists>lines. format_loop three_items = Returned lines \<and>
      (\<exists>l rest. l \<in> set lines \<and> l = ''['' @ str_nat 0 @ '']: '' @ rest)"
    by (intro exI [of _ lines] conjI)
  from annotate_agent3 label_script_page3 h3 h4 r show ?thesis by (intro conjI)
qed

section \<open>The shape of a line\<close>

text \<open>
  C4, as stated: the aria-label is appended exactly when it is present and differs
  from the text. A present but empty aria-label (\<open>aria-label=""\<close>) differs from the text
  \<open>Submit\<close>, and the code does not append it: the test \<open>ele_aria_label and ...\<close> needs a
  non-empty value.
\<close>

theorem aria_label_present_counterexample:
  \<open>attr_aria_label (item_element blank_aria_button) = Some [] \<and>
   Some [] \<noteq> Some (item_text blank_aria_button) \<and>
   tag_name (item_element blank_aria_button) = ''button'' \<and>
   format_line 0 blank_aria_button = Some ''[0]: <button> "Submit";'' \<and>
   format_line 0 blank_aria_button \<noteq> Some ''[0]: <button> "Submit", "";''\<close>
  by code_simp

text \<open>
  C4, amended. For an element with non-empty text that passes the inclusion filter:
  the line carries the \<open><tag>\<close> marker exactly when the tag name is one of button,
  input, textarea; in both cases the label is the text, with the aria-label appended
  (comma-separated, in its own quotes) exactly when the aria-label is present,
  non-empty and different from the text.
\<close>

theorem nonempty_text_line:
  assumes "item_text item \<noteq> []" and "format_line i item \<noteq> None"
  shows \<open>format_line i item =
           Some (''['' @ str_nat i @ '']: ''
                 @ (if tag_name (item_element item) \<in> {''button'', ''input'', ''textarea''}
                    then ''<'' @ tag_name (item_element item) @ ''> '' else [])
                 @ ''"'' @ item_text item @ ''"''
                 @ (case attr_aria_label (item_element item) of
                      None \<Rightarrow> []
                    | Some a \<Rightarrow> if a \<noteq> [] \<and> a \<noteq> item_text item then '', "'' @ a @ ''"'' else [])
                 @ '';'')\<close>
  using assms
  by (auto simp: format_line_def Let_def truthy_def line_tag_def line_tag2_def line_plain_def
        line_plain2_def split: option.splits if_splits)

theorem nonempty_text_line_witness:
  \<open>item_text submit_button \<noteq> [] \<and> format_line 0 submit_button \<noteq> None \<and>
   format_line 0 submit_button = Some ''[0]: <button> "Submit", "submit-form";''\<close>
proof -
  have h: "item_text submit_button \<noteq> []" by (simp add: submit_button_def)
  have i: "format_line 0 submit_button \<noteq> None" by code_simp
  have n: "str_nat 0 = ''0''" by code_simp
  from nonempty_text_line [OF h i] show ?thesis
    using h i by (simp add: submit_button_def n)
qed

section \<open>Indices of one annotation pass\<close>

text \<open>
  C1, as stated: every index appearing in \<open>formatted_text\<close> is a valid position in
  \<open>element_handles\<close>. Texts are copied into the lines as they are, so one element whose
  text holds a tab followed by \<open>[7]: \<close> gives a formatted text that reads as the two
  entries \<open>[0]: "x";\<close> and \<open>[7]: "y";\<close>, while there is a single element handle.
\<close>

theorem spoofed_index_counterexample:
  \<open>get_web_element_rect True spoof_agent =
     (Returned ([Marker 0], [item_element spoof_div],
                join [tab] [''[0]: "x";'', ''[7]: "y";'']), spoofed_agent) \<and>
   split_on tab (join [tab] [''[0]: "x";'', ''[7]: "y";'']) = [''[0]: "x";'', ''[7]: "y";''] \<and>
   \<not> 7 < length [item_element spoof_div]\<close>
  by code_simp

text \<open>
  C1, amended. In an annotation pass that returns, the markers and the element handles
  have the same length; the loop numbers the raw elements \<open>0, 1, ..., len - 1\<close> in their
  order, element \<open>i\<close> of the handles being element \<open>i\<close> of the raw list; the entries
  joined into \<open>formatted_text\<close> are the lines of the included indices, in increasing
  order, and an entry that reads \<open>[k]: ...\<close> is the line of element \<open>k\<close>, a valid position
  of the element handles. When no entry contains a tab, the same holds for the
  tab-separated pieces of \<open>formatted_text\<close> itself.
\<close>

theorem annotation_pass_indices:
  assumes "get_web_element_rect fix_color self =
             (Returned (markers, element_handles, formatted_text), self')"
    and "label_script color_function (browser self) = (Returned (rs, items_raw), pg)"
  shows "\<exists>lines. format_loop items_raw = Returned lines \<and>
         length markers = length element_handles \<and>
         element_handles = map item_element items_raw \<and>
         formatted_text = join [tab] lines \<and>
         lines = map (\<lambda>i. the (format_line i (items_raw ! i))) (included_ids items_raw) \<and>
         included_ids items_raw =
           filter (\<lambda>i. format_line i (items_raw ! i) \<noteq> None) [0..<length element_handles] \<and>
         distinct (included_ids items_raw) \<and> sorted (included_ids items_raw) \<and>
         (\<forall>l k rest. l \<in> set lines \<longrightarrow>
             l = ''['' @ str_nat k @ '']: '' @ rest \<longrightarrow>
             k < length element_handles \<and> format_line k (items_raw ! k) = Some l) \<and>
         ((\<forall>l\<in>set lines. tab \<notin> set l) \<longrightarrow>
            (\<forall>piece k rest. piece \<in> set (split_on tab formatted_text) \<longrightarrow>
               piece = ''['' @ str_nat k @ '']: '' @ rest \<longrightarrow>
               k < length element_handles))"
proof -
  from label_script_returned(2) [OF assms(2)] have it: "items_raw = interactive (browser self)" .
  from get_web_element_rect_returned [OF assms(1)] it obtain lines
    where fl: "format_loop items_raw = Returned lines"
      and ms: "markers = map Marker [next_node (browser self) ..<
                  next_node (browser self) + length items_raw]"
      and h: "element_handles = map item_element items_raw"
      and t: "formatted_text = join [tab] lines" by auto
  from h have n: "length element_handles = length items_raw" by simp
  have c1: "length markers = length element_handles" using ms n by simp
  have c4: "lines = map (\<lambda>i. the (format_line i (items_raw ! i))) (included_ids items_raw)"
    by (rule format_loop_returned(1) [OF fl])
  have c5: "included_ids items_raw =
      filter (\<lambda>i. format_line i (items_raw ! i) \<noteq> None) [0..<length element_handles]"
    unfolding n by (rule included_ids_def)
  have c6: "distinct (included_ids items_raw)"
    unfolding included_ids_def by (rule distinct_filter) simp
  have c7: "sorted (included_ids items_raw)"
    unfolding included_ids_def by (rule sorted_wrt_filter) simp
  have c8: "\<forall>l k rest. l \<in> set lines \<longrightarrow>
             l = ''['' @ str_nat k @ '']: '' @ rest \<longrightarrow>
             k < length element_handles \<and> format_line k (items_raw ! k) = Some l"
  proof (intro allI impI)
    fix l k rest
    assume "l \<in> set lines" and "l = ''['' @ str_nat k @ '']: '' @ rest"
    from format_loop_line [OF fl this]
    show "k < length element_handles \<and> format_line k (items_raw ! k) = Some l"
      unfolding n .
  qed
  have c9: "(\<forall>l\<in>set lines. tab \<notin> set l) \<longrightarrow>
            (\<forall>piece k rest. piece \<in> set (split_on tab formatted_text) \<longrightarrow>
               piece = ''['' @ str_nat k @ '']: '' @ rest \<longrightarrow>
               k < length element_handles)"
  proof (intro allI impI)
    fix piece k rest
    assume nt: "\<forall>l\<in>set lines. tab \<notin> set l"
      and p: "piece \<in> set (split_on tab formatted_text)"
      and e: "piece = ''['' @ str_nat k @ '']: '' @ rest"
    show "k < length element_handles"
    proof (cases "lines = []")
      case True
      with t p have "piece = []" by simp
      with e show ?thesis by simp
    next
      case False
      from split_on_join [OF False nt] t p have "piece \<in> set lines" by simp
      from format_loop_line [OF fl this e] show ?thesis unfolding n by (rule conjunct1)
    qed
  qed
  from fl c1 h t c4 c5 c6 c7 c8 c9 show ?thesis by (intro exI [of _ lines] conjI)
qed

lemma format_loop_three_items:
  \<open>format_loop three_items = Returned [''[0]: "Hi";'', ''[2]: <button> "Send";'']\<close>
  by code_simp

theorem annotation_pass_indices_witness:
  \<open>get_web_element_rect True agent3 =
     (Returned ([Marker 0, Marker 1, Marker 2], map item_element three_items,
                ''[0]: "Hi";'' @ [tab] @ ''[2]: <button> "Send";''), agent3_marked) \<and>
   label_script ''getFixedColor'' (browser agent3) =
     (Returned ([Marker 0, Marker 1, Marker 2], three_items), page3_marked) \<and>
   length [Marker 0, Marker 1, Marker 2] = length (map item_element three_items) \<and>
   included_ids three_items = [0, 2] \<and>
   2 < length (map item_element three_items) \<and>
   format_line 2 (three_items ! 2) = Some ''[2]: <button> "Send";''\<close>
proof -
  have n: "str_nat 2 = ''2''" by code_simp
  have e: \<open>''[2]: <button> "Send";'' = ''['' @ str_nat 2 @ '']: '' @ ''<button> "Send";''\<close>
    by (simp add: n)
  have i: "included_ids three_items = [0, 2]" by code_simp
  from annotation_pass_indices [OF annotate_agent3 label_script_page3]
  obtain lines where fl: "format_loop three_items = Returned lines"
    and l: "length [Marker 0, Marker 1, Marker 2] = length (map item_element three_items)"
    and q: \<open>\<forall>l k rest. l \<in> set lines \<longrightarrow>
             l = ''['' @ str_nat k @ '']: '' @ rest \<longrightarrow>
             k < length (map item_element three_items) \<and>
             format_line k (three_items ! k) = Some l\<close>
    by (elim exE conjE)
  from fl format_loop_three_items
  have "lines = [''[0]: ''@ [CHR 0x22] @ ''Hi'' @ [CHR 0x22] @ '';'', ''[2]: <button> '' @ [CHR 0x22] @ ''Send'' @ [CHR 0x22] @ '';'']"
    by simp
  then have m: \<open>''[2]: <button> "Send";'' \<in> set lines\<close> by simp
  note r = q [rule_format, OF m e]
  from r have q1: "2 < length (map item_element three_items)" by (rule conjunct1)
  from r have q2: \<open>format_line 2 (three_items ! 2) = Some ''[2]: <button> "Send";''\<close>
    by (rule conjunct2)
  from annotate_agent3 label_script_page3 l i q1 q2 show ?thesis by (intro conjI)
qed

section \<open>Clearing the markers\<close>

text \<open>
  C7, as stated: after \<open>del_web_element_rect\<close> is called the marker list is cleared and
  a second call is a no-op. With \<open>Marker 5\<close> no longer a child of the body the removal
  script raises, \<open>del self.rects\<close> is not reached, the list is kept, and the second call
  raises again.
\<close>

theorem raising_del_keeps_list_counterexample:
  "del_web_element_rect stuck_agent = (Raised (DriverError not_a_child), stuck_agent) \<and>
   rects stuck_agent = Some [Marker 5, Marker 6] \<and>
   fst (del_web_element_rect (snd (del_web_element_rect stuck_agent))) =
     Raised (DriverError not_a_child)"
  by code_simp

text \<open>
  C7, amended. When a call of \<open>del_web_element_rect\<close> has returned, the marker list of
  the annotator is gone, and a second call before a new annotation pass changes
  nothing: it returns with the page and the annotator as the first call left them. A
  call that raises had a marker list and keeps it.
\<close>

theorem del_twice:
  "(del_web_element_rect s = (Returned u, s') \<longrightarrow>
      rects s' = None \<and> del_web_element_rect s' = (Returned (), s')) \<and>
   (del_web_element_rect s = (Raised e, s') \<longrightarrow> rects s \<noteq> None \<and> rects s' = rects s)"
  by (auto simp: del_web_element_rect_def split: option.splits prod.splits outcome.splits)

lemma del_tracked: "del_web_element_rect tracked_agent = (Returned (), cleared_agent)"
  by (simp add: del_web_element_rect_def tracked_agent_def cleared_agent_def removeChild_def)

theorem del_twice_witness:
  "del_web_element_rect tracked_agent = (Returned (), cleared_agent) \<and>
   rects cleared_agent = None \<and>
   del_web_element_rect cleared_agent = (Returned (), cleared_agent)"
proof -
  note t = del_twice [of tracked_agent "()" cleared_agent, THEN conjunct1, THEN mp,
      OF del_tracked]
  from t have a: "rects cleared_agent = None" by (rule conjunct1)
  from t have b: "del_web_element_rect cleared_agent = (Returned (), cleared_agent)"
    by (rule conjunct2)
  from del_tracked a b show ?thesis by (intro conjI)
qed





section \<open>Markers on the page\<close>

lemma annotate_clean_page:
  assumes "markers_on_page (browser s) = []"
    and "get_web_element_rect c s = (Returned (rs, hs, t), s')"
  shows "rects s' = Some rs \<and> markers_on_page (browser s') = rs"
proof -
  from get_web_element_rect_returned [OF assms(2)]
  have m: "rs = map Marker [next_node (browser s) ..<
              next_node (browser s) + length (interactive (browser s))]"
    and s': "s' = s\<lparr>browser := (browser s)\<lparr>body := body (browser s) @ rs,
                       next_node := next_node (browser s) + length (interactive (browser s))\<rparr>,
                     rects := Some rs\<rparr>"
    by auto
  have "filter is_marker rs = rs" unfolding m by (simp add: filter_map comp_def)
  with assms(1) s' show ?thesis by (simp add: markers_on_page_def)
qed

lemma annotate_returns:
  assumes "annotatable s"
  shows "\<exists>rs hs t s'. get_web_element_rect c s = (Returned (rs, hs, t), s') \<and> annotatable s'"
  using assms
  by (simp add: annotatable_def get_web_element_rect_def label_script_def Let_def
        format_loop_fresh)

lemma del_annotatable:
  "del_web_element_rect s = (r, s') \<Longrightarrow> annotatable s' = annotatable s"
  by (auto simp: del_web_element_rect_def annotatable_def
        split: option.splits prod.splits outcome.splits)

lemma js_del_script_all_markers:
  "filter is_marker b = rs \<Longrightarrow>
     \<exists>b'. js_del_script rs b = (Returned (), b') \<and> filter is_marker b' = []"
proof (induction rs arbitrary: b)
  case Nil
  then show ?case by simp
next
  case (Cons r rs)
  then have "r \<in> set (filter is_marker b)" by simp
  then have m: "r \<in> set b" by simp
  have "filter is_marker (remove1 r b) = remove1 r (filter is_marker b)"
    by (rule filter_remove1)
  with Cons.prems have "filter is_marker (remove1 r b) = rs" by simp
  from Cons.IH [OF this] m show ?case by (simp add: removeChild_def)
qed

lemma del_tidy:
  assumes "tidy (s, recent)"
  shows "\<exists>s'. del_web_element_rect s = (Returned (), s') \<and> rects s' = None \<and>
           markers_on_page (browser s') = []"
proof (cases "rects s")
  case None
  with assms show ?thesis by (simp add: tidy_def del_web_element_rect_def)
next
  case (Some rs)
  with assms have "filter is_marker (body (browser s)) = rs"
    by (simp add: tidy_def markers_on_page_def)
  from js_del_script_all_markers [OF this] obtain b'
    where "js_del_script rs (body (browser s)) = (Returned (), b')" "filter is_marker b' = []"
    by blast
  with Some show ?thesis by (simp add: del_web_element_rect_def markers_on_page_def)
qed

lemma run_tidy:
  assumes "tidy (s, recent)" and "no_stacked calls"
    and "markers_on_page (browser s) = [] \<or> (\<forall>c cs. calls \<noteq> Annotate c # cs)"
    and "run calls (s, recent) = Returned (s', recent')"
  shows "tidy (s', recent')"
  using assms
proof (induction calls arbitrary: s recent)
  case Nil
  then show ?case by simp
next
  case (Cons c cs)
  show ?case
  proof (cases c)
    case (Annotate fc)
    with Cons.prems(3) have e: "markers_on_page (browser s) = []" by blast
    from Cons.prems(4) Annotate obtain rs hs t s1
      where g: "get_web_element_rect fc s = (Returned (rs, hs, t), s1)"
        and r: "run cs (s1, rs) = Returned (s', recent')"
      by (auto split: prod.splits outcome.splits)
    from annotate_clean_page [OF e g] have t1: "tidy (s1, rs)" by (simp add: tidy_def)
    from Cons.prems(2) Annotate have n: "no_stacked cs"
      and h: "markers_on_page (browser s1) = [] \<or> (\<forall>c' cs'. cs \<noteq> Annotate c' # cs')"
      by (cases cs; cases "hd cs"; auto)+
    from Cons.IH [OF t1 n h r] show ?thesis .
  next
    case Clear
    from del_tidy [OF Cons.prems(1)] obtain s1
      where d: "del_web_element_rect s = (Returned (), s1)" "rects s1 = None"
        "markers_on_page (browser s1) = []" by blast
    then have t1: "tidy (s1, recent)" by (simp add: tidy_def)
    from Cons.prems(2) Clear have n: "no_stacked cs" by simp
    from Cons.prems(4) Clear d(1) have r: "run cs (s1, recent) = Returned (s', recent')" by simp
    from d(3) have h: "markers_on_page (browser s1) = [] \<or> (\<forall>c' cs'. cs \<noteq> Annotate c' # cs')"
      by simp
    from Cons.IH [OF t1 n h r] show ?thesis .
  qed
qed

lemma run_returns:
  assumes "tidy (s, recent)" and "no_stacked calls"
    and "markers_on_page (browser s) = [] \<or> (\<forall>c cs. calls \<noteq> Annotate c # cs)"
    and "annotatable s"
  shows "\<exists>st'. run calls (s, recent) = Returned st'"
  using assms
proof (induction calls arbitrary: s recent)
  case Nil
  then show ?case by simp
next
  case (Cons c cs)
  show ?case
  proof (cases c)
    case (Annotate fc)
    with Cons.prems(3) have e: "markers_on_page (browser s) = []" by blast
    from annotate_returns [OF Cons.prems(4)] obtain rs hs t s1
      where g: "get_web_element_rect fc s = (Returned (rs, hs, t), s1)"
        and a: "annotatable s1" by blast
    from annotate_clean_page [OF e g] have t1: "tidy (s1, rs)" by (simp add: tidy_def)
    from Cons.prems(2) Annotate have n: "no_stacked cs"
      and h: "markers_on_page (browser s1) = [] \<or> (\<forall>c' cs'. cs \<noteq> Annotate c' # cs')"
      by (cases cs; cases "hd cs"; auto)+
    from Cons.IH [OF t1 n h a] Annotate g show ?thesis by simp
  next
    case Clear
    from del_tidy [OF Cons.prems(1)] obtain s1
      where d: "del_web_element_rect s = (Returned (), s1)" "rects s1 = None"
        "markers_on_page (browser s1) = []" by blast
    then have t1: "tidy (s1, recent)" by (simp add: tidy_def)
    from Cons.prems(2) Clear have n: "no_stacked cs" by simp
    from d(3) have h: "markers_on_page (browser s1) = [] \<or> (\<forall>c' cs'. cs \<noteq> Annotate c' # cs')"
      by simp
    from del_annotatable [OF d(1)] Cons.prems(4) have a: "annotatable s1" by simp
    from Cons.IH [OF t1 n h a] Clear d(1) show ?thesis by simp
  qed
qed

lemma failed_pass_leaves_markers:
  "get_web_element_rect True stale_agent = (Raised stale_reference, stale_left_agent) \<and>
   rects stale_left_agent = None \<and>
   markers_on_page (browser stale_left_agent) = [Marker 0]"
  by code_simp

text \<open>
  C6, as stated: after any sequence of calls the markers on the page are none or those
  of the most recent pass. Two annotation passes without a clearing call in between
  leave the markers of the first pass on the page, beside those of the second.
\<close>

theorem stacked_annotation_counterexample:
  "clean agent0 \<and>
   run [Annotate True, Annotate True] (agent0, []) = Returned (agent2, [Marker 1]) \<and>
   markers_on_page (browser agent2) = [Marker 0, Marker 1] \<and>
   set (markers_on_page (browser agent2)) \<noteq> {} \<and>
   set (markers_on_page (browser agent2)) \<noteq> set [Marker 1]"
  by code_simp

text \<open>
  C6, amended. For every sequence of \<open>get_web_element_rect\<close> and \<open>del_web_element_rect\<close>
  calls in which no two annotation calls follow each other directly, started on a page
  without markers by an agent without marker list: whenever all calls of the sequence
  have returned, the markers on the page are none or exactly those created by the most
  recent annotation pass. All calls do return when the script file can be opened, the
  page executes scripts and no discovered element is stale; an annotation pass that
  raises ends the sequence.
\<close>

theorem markers_empty_or_recent:
  assumes "clean s" and "no_stacked calls"
  shows "(\<forall>s' recent. run calls (s, []) = Returned (s', recent) \<longrightarrow>
            markers_on_page (browser s') = [] \<or> markers_on_page (browser s') = recent) \<and>
         (annotatable s \<longrightarrow> (\<exists>s' recent. run calls (s, []) = Returned (s', recent)))"
proof (intro conjI allI impI)
  from assms(1) have t: "tidy (s, [])" and e: "markers_on_page (browser s) = []"
    by (simp_all add: clean_def tidy_def)
  from e have h: "markers_on_page (browser s) = [] \<or> (\<forall>c cs. calls \<noteq> Annotate c # cs)" ..
  {
    fix s' recent
    assume "run calls (s, []) = Returned (s', recent)"
    from run_tidy [OF t assms(2) h this] have "tidy (s', recent)" .
    then show "markers_on_page (browser s') = [] \<or> markers_on_page (browser s') = recent"
      by (cases "rects s'") (simp_all add: tidy_def)
  }
  {
    assume "annotatable s"
    from run_returns [OF t assms(2) h this]
    show "\<exists>s' recent. run calls (s, []) = Returned (s', recent)" by auto
  }
qed

theorem markers_empty_or_recent_witness:
  "clean agent0 \<and> no_stacked [Annotate True, Clear, Clear, Annotate False] \<and>
   annotatable agent0 \<and>
   (\<exists>s' recent. run [Annotate True, Clear, Clear, Annotate False] (agent0, []) =
        Returned (s', recent) \<and>
      (markers_on_page (browser s') = [] \<or> markers_on_page (browser s') = recent))"
proof -
  have a: "clean agent0" by code_simp
  have b: "no_stacked [Annotate True, Clear, Clear, Annotate False]" by simp
  have c: "annotatable agent0" by code_simp
  note t = markers_empty_or_recent [OF a b]
  from t [THEN conjunct2, THEN mp, OF c] obtain s' recent
    where r: "run [Annotate True, Clear, Clear, Annotate False] (agent0, []) =
        Returned (s', recent)" by (elim exE)
  from t [THEN conjunct1, rule_format, OF r]
  have m: "markers_on_page (browser s') = [] \<or> markers_on_page (browser s') = recent" .
  from r m have "\<exists>s' recent. run [Annotate True, Clear, Clear, Annotate False] (agent0, []) =
        Returned (s', recent) \<and>
      (markers_on_page (browser s') = [] \<or> markers_on_page (browser s') = recent)"
    by (intro exI conjI)
  with a b c show ?thesis by (intro conjI)
qed

section \<open>The text handed to the decision loop\<close>

text \<open>
  C5. \<open>get_web_element_rect\<close> already joins the lines with a tab and returns one string;
  \<open>get_current_webpage_state\<close> joins that string once more, which puts a tab between
  every two characters. For the page with the single element \<open>Hi\<close> the only line is
  \<open>[0]: "Hi";\<close>, and the text returned to the decision loop is not that line.
\<close>

theorem webpage_state_joins_characters:
  \<open>fst (get_current_webpage_state agent0) =
     Returned [CHR ''['', tab, CHR ''0'', tab, CHR '']'', tab, CHR '':'', tab, CHR '' '', tab,
               CHR 0x22, tab, CHR ''H'', tab, CHR ''i'', tab, CHR 0x22, tab, CHR '';''] \<and>
   format_loop (interactive (browser agent0)) = Returned [''[0]: "Hi";''] \<and>
   fst (get_current_webpage_state agent0) \<noteq> Returned (join [tab] [''[0]: "Hi";''])\<close>
  by code_simp

section \<open>Clicking an element\<close>

text \<open>
  C9. The index \<open>-1\<close> is none of the indices \<open>0, 1\<close> handed out for two elements. The
  guard \<open>web_element_num >= len(web_elements)\<close> lets it pass, \<open>web_elements[-1]\<close> is the
  last element, and the tool clicks it and reports success.
\<close>

theorem negative_index_clicks:
  "tool_click_web_element (log_click []) (- 1) click_ctx [] =
     (Returned [(''status'', PyInt 200),
                (''message'', PyStr ''Clicked on web element number -1.'')],
      [item_element submit_button])"
  by code_simp

text \<open>Every path of the tool returns a dictionary: the guards return error
  dictionaries, and \<open>except Exception\<close> turns the \<open>IndexError\<close> of the subscript and any
  exception of the click into one.\<close>

lemma tool_click_total:
  "\<exists>d w'. tool_click_web_element click n ctx w = (Returned d, w') \<and>
      ((\<exists>m. d = [(''error'', PyStr m)]) \<or> d = clicked n)"
  by (auto simp: tool_click_web_element_def click_try_def out_of_range_def Let_def
           split: option.splits prod.splits outcome.splits)

text \<open>
  C10. The number \<open>-2\<close> is out of range for two elements, and the claim has every
  out-of-range number converted into an error dictionary. The tool clicks the first
  element (\<open>web_elements[-2]\<close>) and returns the status-200 dictionary.
\<close>

theorem negative_number_reports_success:
  "tool_click_web_element (log_click []) (- 2) click_ctx [] =
     (Returned [(''status'', PyInt 200),
                (''message'', PyStr ''Clicked on web element number -2.'')],
      [item_element send_button])"
  by code_simp

end
